theory Spec2Isabelle
  imports Complex_Main "HOL-Library.Word" "HOL-Library.Sublist"
begin

unbundle bit_operations_syntax

section \<open>Values on the wire\<close>

text \<open>
  A Python \<^verbatim>\<open>bytes\<close> object is a list of 8-bit words. A Python \<^verbatim>\<open>float\<close> is an IEEE-754
  binary64 value and is represented by its 64-bit pattern (sign, 11 exponent bits,
  52 fraction bits); Python integers are unbounded and are \<^typ>\<open>int\<close>.
\<close>

type_synonym byte = "8 word"
type_synonym bytes = "byte list"
type_synonym pyfloat = "64 word"

text \<open>The exceptions that the modelled code can raise.\<close>

datatype error =
    StructError
  | OverflowError
  | IndexError
  | ValueError
  | UnicodeDecodeError
  | ReadError

subsection \<open>The \<^verbatim>\<open>struct\<close> codes \<^verbatim>\<open>i\<close>, \<^verbatim>\<open>q\<close> and \<^verbatim>\<open>f\<close> in little-endian mode\<close>

text \<open>
  \<open>le_bytes n v\<close> is the \<open>n\<close>-byte little-endian two's-complement image of \<open>v\<close>,
  \<open>le_int\<close> reads a little-endian byte string as an unsigned number, and
  \<open>to_signed w\<close> reinterprets an unsigned \<open>w\<close>-bit number as a signed one.
\<close>

fun le_bytes :: "nat \<Rightarrow> int \<Rightarrow> bytes" where
  "le_bytes 0 v = []"
| "le_bytes (Suc n) v = word_of_int v # le_bytes n (v div 256)"

fun le_int :: "bytes \<Rightarrow> int" where
  "le_int [] = 0"
| "le_int (b # bs) = uint b + 256 * le_int bs"

definition to_signed :: "nat \<Rightarrow> int \<Rightarrow> int" where
  "to_signed w u = (if u < 2 ^ (w - 1) then u else u - 2 ^ w)"

definition in_i32 :: "int \<Rightarrow> bool" where
  "in_i32 v \<longleftrightarrow> - (2 ^ 31) \<le> v \<and> v < 2 ^ 31"

definition in_i64 :: "int \<Rightarrow> bool" where
  "in_i64 v \<longleftrightarrow> - (2 ^ 63) \<le> v \<and> v < 2 ^ 63"

text \<open>
  \<^verbatim>\<open>struct.pack('<i', v)\<close> and \<^verbatim>\<open>struct.pack('<q', v)\<close> raise \<^verbatim>\<open>struct.error\<close> when
  \<open>v\<close> is outside the signed range of the field.
\<close>

definition pack_i :: "int \<Rightarrow> error + bytes" where
  "pack_i v = (if in_i32 v then Inr (le_bytes 4 v) else Inl StructError)"

definition pack_q :: "int \<Rightarrow> error + bytes" where
  "pack_q v = (if in_i64 v then Inr (le_bytes 8 v) else Inl StructError)"

text \<open>
  The C conversion \<^verbatim>\<open>(float)x\<close> that \<^verbatim>\<open>struct\<close> applies for the code \<^verbatim>\<open>f\<close>: IEEE-754
  rounding to nearest, ties to even, on the bit patterns. \<open>rne m sh\<close> rounds
  \<open>m / 2 ^ sh\<close>. For a finite double with biased exponent \<open>E\<close> and significand \<open>M\<close> the
  magnitude bits of the single are \<open>(E - 897) * 2 ^ 23\<close> plus the significand rounded to
  24 bits when the result is normal, and the significand rounded at the fixed
  subnormal quantum \<open>2 ^ -149\<close> otherwise; a carry out of the significand lands in the
  exponent field, and everything from \<open>0x7F800000\<close> on is infinity. A NaN keeps its
  sign and the top of its payload and is made quiet.
\<close>

definition rne :: "int \<Rightarrow> nat \<Rightarrow> int" where
  "rne m sh = (let q = m div 2 ^ sh; r = m mod 2 ^ sh; h = 2 ^ (sh - 1)
               in if h < r \<or> (r = h \<and> odd q) then q + 1 else q)"

definition double_to_single :: "pyfloat \<Rightarrow> 32 word" where
  "double_to_single d =
     (let sgn = push_bit 31 (ucast (drop_bit 63 d)) :: 32 word;
          E = uint (drop_bit 52 d AND 0x7FF);
          F = uint (d AND 0xFFFFFFFFFFFFF)
      in if E = 2047 then
           (if F = 0 then sgn OR 0x7F800000
            else sgn OR 0x7FC00000 OR word_of_int (F div 2 ^ 29))
         else
           (let M = (if E = 0 then F else 2 ^ 52 + F);
                B = (if 897 \<le> E then (E - 897) * 2 ^ 23 + rne M 29
                     else rne M (nat (926 - max E 1)))
            in sgn OR word_of_int (min B 0x7F800000)))"

definition is_inf64 :: "pyfloat \<Rightarrow> bool" where
  "is_inf64 d \<longleftrightarrow> d AND 0x7FFFFFFFFFFFFFFF = 0x7FF0000000000000"

definition is_inf32 :: "32 word \<Rightarrow> bool" where
  "is_inf32 w \<longleftrightarrow> w AND 0x7FFFFFFF = 0x7F800000"

text \<open>
  \<^verbatim>\<open>struct.pack('<f', x)\<close> raises \<^verbatim>\<open>OverflowError\<close> ("float too large to pack with f
  format") when the conversion of a finite \<open>x\<close> yields an infinity.
\<close>

definition f_overflows :: "pyfloat \<Rightarrow> bool" where
  "f_overflows d \<longleftrightarrow> is_inf32 (double_to_single d) \<and> \<not> is_inf64 d"

definition pack_f :: "pyfloat \<Rightarrow> error + bytes" where
  "pack_f d = (if f_overflows d then Inl OverflowError
               else Inr (le_bytes 4 (uint (double_to_single d))))"

text \<open>
  The magnitude bits of a double (everything but the sign) order the absolute values:
  \<open>0x47EFFFFFF0000000\<close> is \<open>2 ^ 128 - 2 ^ 103\<close>, the least magnitude that rounds to a
  single-precision infinity, and \<open>0x7FF0000000000000\<close> is infinity, with the NaNs above it.
\<close>

definition magnitude :: "pyfloat \<Rightarrow> int" where
  "magnitude d = uint (d AND 0x7FFFFFFFFFFFFFFF)"

definition beyond_single :: "pyfloat \<Rightarrow> bool" where
  "beyond_single d \<longleftrightarrow> 0x47EFFFFFF0000000 \<le> magnitude d \<and> magnitude d < 0x7FF0000000000000"

text \<open>
  The widening \<^verbatim>\<open>(double)y\<close> that \<^verbatim>\<open>struct.unpack\<close> applies to a single: exact on every
  number; \<open>log2n\<close> finds the leading bit of a subnormal significand.
\<close>

fun log2n :: "int \<Rightarrow> nat" where
  "log2n n = (if n < 2 then 0 else Suc (log2n (n div 2)))"

definition single_to_double :: "32 word \<Rightarrow> pyfloat" where
  "single_to_double w =
     (let sgn = push_bit 63 (ucast (drop_bit 31 w)) :: 64 word;
          e = uint (drop_bit 23 w AND 0xFF);
          f = uint (w AND 0x7FFFFF)
      in if e = 255 then
           (if f = 0 then sgn OR 0x7FF0000000000000
            else sgn OR 0x7FF8000000000000 OR word_of_int (f * 2 ^ 29))
         else if e = 0 then
           (if f = 0 then sgn
            else (let p = log2n f
                  in sgn OR word_of_int ((int p + 874) * 2 ^ 52 + (f - 2 ^ p) * 2 ^ (52 - p))))
         else sgn OR word_of_int ((e + 896) * 2 ^ 52 + f * 2 ^ 29))"

definition unpack_f :: "bytes \<Rightarrow> pyfloat" where
  "unpack_f bs = single_to_double (word_of_int (le_int bs))"

text \<open>
  \<^verbatim>\<open>struct.pack\<close> converts its arguments from left to right; the first one that does not
  fit raises.
\<close>

fun collect :: "(error + bytes) list \<Rightarrow> error + bytes" where
  "collect [] = Inr []"
| "collect (Inl e # rest) = Inl e"
| "collect (Inr b # rest) = (case collect rest of Inl e \<Rightarrow> Inl e | Inr bs \<Rightarrow> Inr (b @ bs))"

section \<open>Frame codec\<close>

text \<open>
  A row as \<^verbatim>\<open>pack_sensor_data\<close> receives it: the values \<^verbatim>\<open>int(row['sensor_id'])\<close> and
  \<^verbatim>\<open>int(row['time'])\<close>, and the seven float columns.
\<close>

record row =
  sensor_id :: int
  time :: int
  row_x :: pyfloat
  row_y :: pyfloat
  row_z :: pyfloat
  row_qw :: pyfloat
  row_qx :: pyfloat
  row_qy :: pyfloat
  row_qz :: pyfloat

definition pack_sensor_data :: "row \<Rightarrow> error + bytes" where
  "pack_sensor_data r =
     collect [pack_i (sensor_id r), pack_q (time r),
              pack_f (row_x r), pack_f (row_y r), pack_f (row_z r),
              pack_f (row_qw r), pack_f (row_qx r), pack_f (row_qy r), pack_f (row_qz r)]"

type_synonym sensor_tuple =
  "int \<times> int \<times> pyfloat \<times> pyfloat \<times> pyfloat \<times> pyfloat \<times> pyfloat \<times> pyfloat \<times> pyfloat"

text \<open>
  \<^verbatim>\<open>struct.unpack('<iqfffffff', b)\<close> raises \<^verbatim>\<open>struct.error\<close> unless \<open>b\<close> has exactly
  \<^verbatim>\<open>struct.calcsize('<iqfffffff')\<close> = 40 bytes.
\<close>

definition slice :: "nat \<Rightarrow> nat \<Rightarrow> bytes \<Rightarrow> bytes" where
  "slice off n bs = take n (drop off bs)"

definition unpack_sensor_data :: "bytes \<Rightarrow> error + sensor_tuple" where
  "unpack_sensor_data message_bytes =
     (if length message_bytes \<noteq> 40 then Inl StructError
      else Inr (to_signed 32 (le_int (slice 0 4 message_bytes)),
                to_signed 64 (le_int (slice 4 8 message_bytes)),
                unpack_f (slice 12 4 message_bytes),
                unpack_f (slice 16 4 message_bytes),
                unpack_f (slice 20 4 message_bytes),
                unpack_f (slice 24 4 message_bytes),
                unpack_f (slice 28 4 message_bytes),
                unpack_f (slice 32 4 message_bytes),
                unpack_f (slice 36 4 message_bytes)))"

text \<open>
  A well-formed sample: both integers fit their fields and every float lies in the
  range of single precision (it is infinite, a NaN, or rounds to a finite single).
\<close>

definition well_formed :: "row \<Rightarrow> bool" where
  "well_formed r \<longleftrightarrow>
     in_i32 (sensor_id r) \<and> in_i64 (time r) \<and>
     \<not> f_overflows (row_x r) \<and> \<not> f_overflows (row_y r) \<and> \<not> f_overflows (row_z r) \<and>
     \<not> f_overflows (row_qw r) \<and> \<not> f_overflows (row_qx r) \<and> \<not> f_overflows (row_qy r) \<and>
     \<not> f_overflows (row_qz r)"

definition frame_of :: "row \<Rightarrow> bytes" where
  "frame_of r =
     le_bytes 4 (sensor_id r) @ le_bytes 8 (time r) @
     le_bytes 4 (uint (double_to_single (row_x r))) @
     le_bytes 4 (uint (double_to_single (row_y r))) @
     le_bytes 4 (uint (double_to_single (row_z r))) @
     le_bytes 4 (uint (double_to_single (row_qw r))) @
     le_bytes 4 (uint (double_to_single (row_qx r))) @
     le_bytes 4 (uint (double_to_single (row_qy r))) @
     le_bytes 4 (uint (double_to_single (row_qz r)))"

section \<open>Topic scheme\<close>

text \<open>
  \<^verbatim>\<open>f"sensor/em/{int(row['sensor_id'])}"\<close> formats the integer in decimal; the topic goes
  on the wire as its UTF-8 bytes (all characters are ASCII).
\<close>

definition digit_char :: "nat \<Rightarrow> char" where
  "digit_char d = ''0123456789'' ! d"

fun digits :: "nat \<Rightarrow> string" where
  "digits n = (if n < 10 then [digit_char n] else digits (n div 10) @ [digit_char (n mod 10)])"

declare digits.simps [simp del]

definition str_int :: "int \<Rightarrow> string" where
  "str_int i = (if i < 0 then CHR ''-'' # digits (nat (- i)) else digits (nat i))"

definition encode_utf8 :: "string \<Rightarrow> bytes" where
  "encode_utf8 s = map of_char s"

definition sensor_topic :: "int \<Rightarrow> bytes" where
  "sensor_topic i = encode_utf8 (''sensor/em/'' @ str_int i)"

definition done_topic :: bytes where
  "done_topic = encode_utf8 ''control/done''"

section \<open>Observable effects\<close>

text \<open>
  What the two components do to the outside world, in order: socket calls, suspensions
  (\<^verbatim>\<open>time.sleep\<close>, in seconds, as an exact number), two-part messages sent, decoded
  samples handed to the console (\<open>Surface\<close>), and the reports printed on the exit paths.
  The progress lines that the components print along the way are left out.
\<close>

datatype event =
    Bind
  | Connect
  | Subscribe bytes
  | Sleep real
  | Send bytes bytes
  | Surface bytes sensor_tuple
  | Report_not_found
  | Report_interrupted
  | Report_error error
  | Report_done
  | Close
  | Term

section \<open>Publisher\<close>

text \<open>
  The state threaded through the \<^verbatim>\<open>try\<close> block of \<^verbatim>\<open>replay\<close>: the effects so far and the
  number of further effects that complete before \<^verbatim>\<open>KeyboardInterrupt\<close> or \<^verbatim>\<open>SystemExit\<close>
  is raised (\<open>None\<close>: the run is never interrupted). A raised exception carries the
  effects performed before it.
\<close>

record pub =
  trace :: "event list"
  budget :: "nat option"

datatype exc = KeyboardInterrupt | Exception error

type_synonym 'a result = "(exc \<times> event list) + 'a"

definition perform :: "event \<Rightarrow> pub \<Rightarrow> pub result" where
  "perform ev s =
     (case budget s of
        None \<Rightarrow> Inr (s\<lparr>trace := trace s @ [ev]\<rparr>)
      | Some 0 \<Rightarrow> Inl (KeyboardInterrupt, trace s)
      | Some (Suc k) \<Rightarrow> Inr (s\<lparr>trace := trace s @ [ev], budget := Some k\<rparr>))"

text \<open>
  \<^verbatim>\<open>np.diff(df['time'], prepend=df['time'].iloc[0]) / 1000.0\<close>: the column holds 64-bit
  integers, so each difference wraps around; \<^verbatim>\<open>iloc[0]\<close> raises \<^verbatim>\<open>IndexError\<close> on an empty
  frame.
\<close>

definition wrap_i64 :: "int \<Rightarrow> int" where
  "wrap_i64 v = to_signed 64 (v mod 2 ^ 64)"

definition np_diff :: "int \<Rightarrow> int list \<Rightarrow> int list" where
  "np_diff first ts = map (\<lambda>(p, c). wrap_i64 (c - p)) (zip (first # ts) ts)"

definition time_diffs :: "row list \<Rightarrow> error + real list" where
  "time_diffs df =
     (case df of
        [] \<Rightarrow> Inl IndexError
      | r0 # _ \<Rightarrow> Inr (map (\<lambda>d. real_of_int d / 1000) (np_diff (time r0) (map time df))))"

text \<open>The body of \<^verbatim>\<open>for i, row in df.iterrows()\<close>, on the rows paired with their index.\<close>

fun for_rows :: "real list \<Rightarrow> (nat \<times> row) list \<Rightarrow> pub \<Rightarrow> pub result" where
  "for_rows td [] s = Inr s"
| "for_rows td ((i, r) # rest) s =
     (case pack_sensor_data r of
        Inl e \<Rightarrow> Inl (Exception e, trace s)
      | Inr message \<Rightarrow>
          (case perform (Send (sensor_topic (sensor_id r)) message) s of
             Inl x \<Rightarrow> Inl x
           | Inr s1 \<Rightarrow>
               (case (if i < length td \<and> 0 < td ! i then perform (Sleep (td ! i)) s1 else Inr s1) of
                  Inl x \<Rightarrow> Inl x
                | Inr s2 \<Rightarrow> for_rows td rest s2)))"

text \<open>
  \<^verbatim>\<open>while True\<close>: one pass over the rows, then either \<^verbatim>\<open>break\<close> or a pause of one second
  and the next pass. With \<open>loop_data\<close> set the loop ends only by an exception, so it is a
  partial function: \<open>None\<close> is a run that never leaves the loop.
\<close>

partial_function (option) while_true ::
  "bool \<Rightarrow> real list \<Rightarrow> row list \<Rightarrow> pub \<Rightarrow> pub result option" where
  "while_true loop_data td df s =
     (case for_rows td (enumerate 0 df) s of
        Inl x \<Rightarrow> Some (Inl x)
      | Inr s1 \<Rightarrow>
          if \<not> loop_data then Some (Inr s1)
          else (case perform (Sleep 1) s1 of
                  Inl x \<Rightarrow> Some (Inl x)
                | Inr s2 \<Rightarrow> while_true loop_data td df s2))"

declare while_true.simps [code]

text \<open>
  The \<^verbatim>\<open>try\<close> block. \<open>source\<close> is what loading the log gives (\<^verbatim>\<open>pd.read_csv\<close> and the
  column selection): the rows in order, or the exception raised there.
\<close>

definition try_body :: "error + row list \<Rightarrow> bool \<Rightarrow> nat option \<Rightarrow> pub result option" where
  "try_body source loop_data intr =
     (case source of
        Inl e \<Rightarrow> Some (Inl (Exception e, []))
      | Inr df \<Rightarrow>
          (case time_diffs df of
             Inl e \<Rightarrow> Some (Inl (Exception e, []))
           | Inr td \<Rightarrow>
               (case while_true loop_data td df \<lparr>trace = [], budget = intr\<rparr> of
                  None \<Rightarrow> None
                | Some (Inl x) \<Rightarrow> Some (Inl x)
                | Some (Inr s1) \<Rightarrow>
                    (case perform (Send done_topic []) s1 of
                       Inl x \<Rightarrow> Some (Inl x)
                     | Inr s2 \<Rightarrow> Some (perform (Sleep 1) s2)))))"

text \<open>
  \<^verbatim>\<open>replay(rel_path, loop_data)\<close>: \<open>exists\<close> is \<^verbatim>\<open>os.path.exists(rel_path)\<close>. The result is
  the sequence of effects of a run that returns, \<open>None\<close> for a run that does not.
\<close>

definition replay :: "bool \<Rightarrow> error + row list \<Rightarrow> bool \<Rightarrow> nat option \<Rightarrow> event list option" where
  "replay exists source loop_data intr =
     (if \<not> exists then Some [Report_not_found]
      else (case try_body source loop_data intr of
              None \<Rightarrow> None
            | Some (Inr s) \<Rightarrow> Some ([Bind, Sleep 1] @ trace s @ [Close, Term])
            | Some (Inl (KeyboardInterrupt, tr)) \<Rightarrow>
                Some ([Bind, Sleep 1] @ tr @ [Report_interrupted, Close, Term])
            | Some (Inl (Exception e, tr)) \<Rightarrow>
                Some ([Bind, Sleep 1] @ tr @ [Report_error e, Close, Term])))"

subsection \<open>The pass as the specification words it\<close>





section \<open>Subscriber\<close>

text \<open>
  \<^verbatim>\<open>topic_bytes.decode('utf-8')\<close> raises \<^verbatim>\<open>UnicodeDecodeError\<close> unless the bytes are
  well-formed UTF-8 (no overlong forms, no surrogates, nothing above U+10FFFF). The
  decoded text is only compared with \<^verbatim>\<open>'control/done'\<close>, which the model does on the bytes.
\<close>

definition cont :: "byte \<Rightarrow> bool" where
  "cont b \<longleftrightarrow> 0x80 \<le> b \<and> b \<le> 0xBF"

fun utf8_valid :: "bytes \<Rightarrow> bool" where
  "utf8_valid [] = True"
| "utf8_valid (b # bs) =
     (if b \<le> 0x7F then utf8_valid bs
      else if 0xC2 \<le> b \<and> b \<le> 0xDF then
        (case bs of c1 # rest \<Rightarrow> cont c1 \<and> utf8_valid rest | _ \<Rightarrow> False)
      else if 0xE0 \<le> b \<and> b \<le> 0xEF then
        (case bs of
           c1 # c2 # rest \<Rightarrow>
             (if b = 0xE0 then 0xA0 \<le> c1 \<and> c1 \<le> 0xBF
              else if b = 0xED then 0x80 \<le> c1 \<and> c1 \<le> 0x9F
              else cont c1) \<and> cont c2 \<and> utf8_valid rest
         | _ \<Rightarrow> False)
      else if 0xF0 \<le> b \<and> b \<le> 0xF4 then
        (case bs of
           c1 # c2 # c3 # rest \<Rightarrow>
             (if b = 0xF0 then 0x90 \<le> c1 \<and> c1 \<le> 0xBF
              else if b = 0xF4 then 0x80 \<le> c1 \<and> c1 \<le> 0x8F
              else cont c1) \<and> cont c2 \<and> cont c3 \<and> utf8_valid rest
         | _ \<Rightarrow> False)
      else False)"

text \<open>
  What arrives at the socket, in order: a multipart message (its frames), or
  \<^verbatim>\<open>KeyboardInterrupt\<close>/\<^verbatim>\<open>SystemExit\<close> raised while \<^verbatim>\<open>recv_multipart\<close> blocks. When the list
  is used up the receive blocks for ever.
\<close>

datatype incoming = Message "bytes list" | Interrupt

datatype loop_end = Done | Interrupted | Raised error | Blocked

text \<open>
  \<^verbatim>\<open>socket.setsockopt_string(zmq.SUBSCRIBE, ...)\<close> for \<^verbatim>\<open>i in range(1, N + 1)\<close> and for the
  sentinel. A ZeroMQ SUB socket delivers a message when one of its subscriptions is a
  prefix of the first frame.
\<close>

definition subscriptions :: "int \<Rightarrow> bytes list" where
  "subscriptions N = map sensor_topic [1..N] @ [done_topic]"

definition zmq_matches :: "bytes list \<Rightarrow> bytes \<Rightarrow> bool" where
  "zmq_matches subs topic \<longleftrightarrow> list_ex (\<lambda>s. prefix s topic) subs"

fun zmq_delivers :: "bytes list \<Rightarrow> incoming \<Rightarrow> bool" where
  "zmq_delivers subs Interrupt = True"
| "zmq_delivers subs (Message []) = False"
| "zmq_delivers subs (Message (f # fs)) = zmq_matches subs f"

text \<open>
  The \<^verbatim>\<open>while True\<close> of \<^verbatim>\<open>consume\<close> on the delivered messages. Unpacking the received list
  into two names raises \<^verbatim>\<open>ValueError\<close> unless it has exactly two frames.
\<close>

fun recv_loop :: "incoming list \<Rightarrow> event list \<times> loop_end" where
  "recv_loop [] = ([], Blocked)"
| "recv_loop (Interrupt # rest) = ([], Interrupted)"
| "recv_loop (Message frames # rest) =
     (case frames of
        [topic_bytes, message_bytes] \<Rightarrow>
          if \<not> utf8_valid topic_bytes then ([], Raised UnicodeDecodeError)
          else if topic_bytes = done_topic then ([], Done)
          else (case unpack_sensor_data message_bytes of
                  Inl e \<Rightarrow> ([], Raised e)
                | Inr data \<Rightarrow>
                    (case recv_loop rest of
                       (out, r) \<Rightarrow> (Surface topic_bytes data # out, r)))
      | _ \<Rightarrow> ([], Raised ValueError))"

text \<open>
  \<^verbatim>\<open>consume(N)\<close>: only \<^verbatim>\<open>KeyboardInterrupt\<close> and \<^verbatim>\<open>SystemExit\<close> are caught; any other
  exception leaves the function after the \<^verbatim>\<open>finally\<close> block has closed the socket.
\<close>

datatype ending = Returned | Propagated error | Never_returns

definition consume :: "int \<Rightarrow> incoming list \<Rightarrow> event list \<times> ending" where
  "consume N incoming =
     (let subs = subscriptions N;
          setup = Connect # map Subscribe subs
      in case recv_loop (filter (zmq_delivers subs) incoming) of
           (out, Done) \<Rightarrow> (setup @ out @ [Report_done, Close, Term], Returned)
         | (out, Interrupted) \<Rightarrow> (setup @ out @ [Report_interrupted, Close, Term], Returned)
         | (out, Raised e) \<Rightarrow> (setup @ out @ [Close, Term], Propagated e)
         | (out, Blocked) \<Rightarrow> (setup @ out, Never_returns))"

section \<open>Concrete inputs\<close>

definition zero_row :: "int \<Rightarrow> int \<Rightarrow> row" where
  "zero_row sid t = \<lparr>sensor_id = sid, time = t, row_x = 0, row_y = 0, row_z = 0, row_qw = 0,
     row_qx = 0, row_qy = 0, row_qz = 0\<rparr>"

text \<open>Three samples with the timestamps 100, 220 and 500 ms.\<close>

definition timing_rows :: "row list" where
  "timing_rows = [zero_row 1 100, zero_row 2 220, zero_row 3 500]"





text \<open>Concrete rows used to exercise the codec.\<close>

definition sample_row :: row where
  "sample_row = \<lparr>sensor_id = 1, time = 100, row_x = 0x3FB999999999999A, row_y = 0,
     row_z = 0, row_qw = 0x3FF0000000000000, row_qx = 0, row_qy = 0, row_qz = 0\<rparr>"

text \<open>The same row with \<open>x = 2 ^ 128\<close>, a finite double beyond the single-precision range.\<close>

definition huge_x_row :: row where
  "huge_x_row = sample_row\<lparr>row_x := 0x47F0000000000000\<rparr>"


section \<open>Properties of the codec\<close>



lemma le_int_bounds: "0 \<le> le_int bs \<and> le_int bs < 256 ^ length bs"
proof (induction bs)
  case Nil
  show ?case by simp
next
  case (Cons b bs)
  have "0 \<le> uint b" "uint b < 256"
    using uint_bounded [of b] by simp_all
  with Cons show ?case by simp
qed





lemma to_signed_range32: "length bs = 4 \<Longrightarrow> in_i32 (to_signed 32 (le_int bs))"
  using le_int_bounds [of bs] by (auto simp: to_signed_def in_i32_def)

lemma to_signed_range64: "length bs = 8 \<Longrightarrow> in_i64 (to_signed 64 (le_int bs))"
  using le_int_bounds [of bs] by (auto simp: to_signed_def in_i64_def)

lemma pack_sensor_data_wf: "well_formed r \<Longrightarrow> pack_sensor_data r = Inr (frame_of r)"
  by (simp add: well_formed_def pack_sensor_data_def frame_of_def pack_i_def pack_q_def pack_f_def)

lemma pack_sensor_data_not_wf: "\<not> well_formed r \<Longrightarrow> \<exists>e. pack_sensor_data r = Inl e"
  by (auto simp: well_formed_def pack_sensor_data_def pack_i_def pack_q_def pack_f_def)



lemma f_overflows_zero: "\<not> f_overflows 0"
  by (simp add: f_overflows_def double_to_single_def rne_def is_inf32_def is_inf64_def)



section \<open>Auxiliary facts about the publisher\<close>



















section \<open>Auxiliary facts about the subscriber\<close>

lemma recv_loop_append:
  "recv_loop pre = (out, Blocked) \<Longrightarrow>
   recv_loop (pre @ xs) = (out @ fst (recv_loop xs), snd (recv_loop xs))"
  by (induction pre arbitrary: out rule: recv_loop.induct)
    (auto split: list.splits sum.splits prod.splits if_splits)

lemma recv_loop_Message:
  "e \<in> set (fst (recv_loop (Message frames # rest))) \<Longrightarrow>
   \<exists>t p. frames = [t, p] \<and> ((\<exists>d. e = Surface t d) \<or> e \<in> set (fst (recv_loop rest)))"
  by (auto split: list.splits if_splits sum.splits prod.splits)

lemma recv_loop_events:
  "e \<in> set (fst (recv_loop ms)) \<Longrightarrow> \<exists>t d p. e = Surface t d \<and> Message [t, p] \<in> set ms"
proof (induction ms)
  case Nil
  then show ?case by simp
next
  case (Cons m ms)
  show ?case
  proof (cases m)
    case Interrupt
    with Cons.prems show ?thesis by simp
  next
    case (Message frames)
    from Cons.prems Message recv_loop_Message [of e frames ms]
    obtain t p where fr: "frames = [t, p]"
      and alt: "(\<exists>d. e = Surface t d) \<or> e \<in> set (fst (recv_loop ms))"
      by blast
    from alt show ?thesis
    proof
      assume "\<exists>d. e = Surface t d"
      with Message fr show ?thesis by auto
    next
      assume "e \<in> set (fst (recv_loop ms))"
      from Cons.IH [OF this] show ?thesis by auto
    qed
  qed
qed

lemma zmq_matches_subscriptions:
  "zmq_matches (subscriptions N) t \<longleftrightarrow>
     (\<exists>i\<in>{1..N}. prefix (sensor_topic i) t) \<or> prefix done_topic t"
  by (auto simp: zmq_matches_def subscriptions_def list_ex_iff)

section \<open>The overflow threshold of the float conversion\<close>

lemma mask_numerals:
  "(0x7FF :: 64 word) = mask 11" "(0xFFFFFFFFFFFFF :: 64 word) = mask 52"
  "(0x7FFFFFFFFFFFFFFF :: 64 word) = mask 63" "(0x7FFFFFFF :: 32 word) = mask 31"
  by (simp_all add: mask_eq_exp_minus_1)

lemma uint_and_mask_mod: "uint (w AND mask n) = uint w mod 2 ^ n"
proof -
  have "uint (w AND mask n) = uint (take_bit n w)"
    by (simp only: take_bit_eq_mask)
  also have "\<dots> = take_bit n (uint w)"
    by (rule unsigned_take_bit_eq)
  also have "\<dots> = uint w mod 2 ^ n"
    by (rule take_bit_eq_mod)
  finally show ?thesis .
qed

lemma uint_drop_bit_div: "uint (drop_bit n w) = uint w div 2 ^ n"
proof -
  have "take_bit LENGTH('a) (uint w) = uint w" for w :: "'a::len word"
    by (rule take_bit_int_eq_self) (simp_all add: uint_lt2p)
  then have "uint (drop_bit n w) = drop_bit n (uint w)"
    by (simp only: unsigned_drop_bit_eq)
  also have "\<dots> = uint w div 2 ^ n"
    by (rule drop_bit_eq_div)
  finally show ?thesis .
qed

lemma double_fields:
  fixes d :: "64 word"
  defines "E \<equiv> uint (drop_bit 52 d AND 0x7FF)" and "F \<equiv> uint (d AND 0xFFFFFFFFFFFFF)"
  shows "0 \<le> E" "E \<le> 2047" "0 \<le> F" "F < 2 ^ 52"
    "uint (d AND 0x7FFFFFFFFFFFFFFF) = E * 2 ^ 52 + F"
proof -
  have E: "E = uint d div 2 ^ 52 mod 2 ^ 11"
    unfolding E_def mask_numerals
    by (simp only: uint_and_mask_mod uint_drop_bit_div)
  have F: "F = uint d mod 2 ^ 52"
    unfolding F_def mask_numerals by (simp only: uint_and_mask_mod)
  have M: "uint (d AND 0x7FFFFFFFFFFFFFFF) = uint d mod 2 ^ 63"
    unfolding mask_numerals by (simp only: uint_and_mask_mod)
  show "0 \<le> E" "E \<le> 2047" "0 \<le> F" "F < 2 ^ 52"
    by (simp_all add: E F)
  have "uint d mod (2 ^ 52 * 2 ^ 11) = 2 ^ 52 * (uint d div 2 ^ 52 mod 2 ^ 11) + uint d mod 2 ^ 52"
    by (rule zmod_zmult2_eq) simp
  then show "uint (d AND 0x7FFFFFFFFFFFFFFF) = E * 2 ^ 52 + F"
    by (simp add: E F M)
qed

lemma magnitude32:
  fixes y :: "32 word"
  assumes "0 \<le> B" "B < 2 ^ 31"
  shows "(push_bit 31 y OR word_of_int B) AND 0x7FFFFFFF = word_of_int B"
proof (rule bit_word_eqI)
  fix n
  assume "n < LENGTH(32)"
  have "take_bit 31 B = B"
    using assms by (simp add: take_bit_int_eq_self)
  then have "bit B n \<longleftrightarrow> n < 31 \<and> bit B n"
    by (metis bit_take_bit_iff)
  then show "bit ((push_bit 31 y OR word_of_int B) AND 0x7FFFFFFF) n \<longleftrightarrow>
      bit (word_of_int B :: 32 word) n"
    unfolding mask_numerals by (auto simp: bit_simps)
qed


lemma rne_le: "rne m sh \<le> m div 2 ^ sh + 1"
  by (simp add: rne_def Let_def)

lemma rne_nonneg: "0 \<le> m \<Longrightarrow> 0 \<le> rne m sh"
  by (simp add: rne_def Let_def pos_imp_zdiv_nonneg_iff)

lemma rne_29:
  "rne (2 ^ 52 + F) 29 =
     2 ^ 23 + F div 2 ^ 29 +
     (if 2 ^ 28 < F mod 2 ^ 29 \<or> (F mod 2 ^ 29 = 2 ^ 28 \<and> odd (F div 2 ^ 29)) then 1 else 0)"
proof -
  have d: "(2 ^ 29 * 2 ^ 23 + F) div 2 ^ 29 = 2 ^ 23 + F div (2 ^ 29 :: int)"
    by (rule div_mult_self4) simp
  have m: "(2 ^ 29 * 2 ^ 23 + F) mod 2 ^ 29 = F mod (2 ^ 29 :: int)"
    by (rule mod_mult_self4)
  have e: "(2 :: int) ^ 52 = 2 ^ 29 * 2 ^ 23"
    by simp
  show ?thesis
    unfolding rne_def Let_def e d m by simp
qed

lemma finite_overflow_high:
  assumes E: "897 \<le> E" "E \<le> 2046" and F: "0 \<le> F" "F < 2 ^ 52"
  shows "2139095040 \<le> (E - 897) * 2 ^ 23 + rne (2 ^ 52 + F) 29 \<longleftrightarrow>
     5183643170835005440 \<le> E * 2 ^ 52 + F"
proof -
  define q where "q = F div 2 ^ 29"
  define r where "r = F mod 2 ^ 29"
  define c :: int where "c = (if 2 ^ 28 < r \<or> (r = 2 ^ 28 \<and> odd q) then 1 else 0)"
  define R where "R = rne (2 ^ 52 + F) 29"
  have Fqr: "F = q * 536870912 + r"
    by (simp add: q_def r_def)
  have r: "0 \<le> r" "r < 536870912"
    by (simp_all add: r_def)
  have q: "0 \<le> q" "q \<le> 8388607"
    using F Fqr r by simp_all
  have R: "R = 8388608 + q + c"
    unfolding R_def rne_29 q_def r_def c_def by simp
  have c: "0 \<le> c" "c \<le> 1"
    by (simp_all add: c_def)
  consider "1151 \<le> E" | "E = 1150" "q = 8388607" | "E = 1150" "q \<le> 8388606" | "E \<le> 1149"
    using q by linarith
  then have "2139095040 \<le> (E - 897) * 2 ^ 23 + R \<longleftrightarrow>
     5183643170835005440 \<le> E * 2 ^ 52 + F"
  proof cases
    case 1
    then show ?thesis
      using F q c by (simp add: R)
  next
    case 2
    then have "c = 1 \<longleftrightarrow> 268435456 \<le> r"
      by (auto simp: c_def)
    with 2 c show ?thesis
      by (simp add: R Fqr)
  next
    case 3
    with c r show ?thesis
      by (simp add: R Fqr)
  next
    case 4
    with c q F show ?thesis
      by (simp add: R)
  qed
  then show ?thesis
    by (simp only: R_def)
qed

lemma finite_overflow_low:
  assumes E: "0 \<le> E" "E \<le> 896" and F: "0 \<le> F" "F < 2 ^ 52"
  shows "rne (if E = 0 then F else 2 ^ 52 + F) (nat (926 - max E 1)) < 2139095040"
proof -
  define M where "M = (if E = 0 then F else 2 ^ 52 + F)"
  define sh where "sh = nat (926 - max E 1)"
  have M: "0 \<le> M" "M < 2 ^ 53"
    using F by (simp_all add: M_def)
  have "30 \<le> sh"
    using E by (simp add: sh_def)
  then have "(2 :: int) ^ 30 \<le> 2 ^ sh"
    by (rule power_increasing) simp
  then have "M div 2 ^ sh \<le> M div 2 ^ 30"
    using M by (intro zdiv_mono2) simp_all
  also have "\<dots> \<le> 8388608"
    using M by simp
  finally have "rne M sh \<le> 8388609"
    using rne_le [of M sh] by simp
  then show ?thesis
    by (simp add: M_def sh_def)
qed


lemma is_inf32_magnitude:
  fixes y :: "32 word"
  assumes "0 \<le> B" "B < 2 ^ 31"
  shows "is_inf32 (push_bit 31 y OR word_of_int B) \<longleftrightarrow> B = 2139095040"
proof -
  have "uint (word_of_int B :: 32 word) = B"
    using assms by (simp add: uint_word_of_int)
  moreover have "(word_of_int B :: 32 word) = 2139095040 \<longleftrightarrow>
      uint (word_of_int B :: 32 word) = uint (2139095040 :: 32 word)"
    by (simp only: word_uint_eq_iff)
  ultimately have "(word_of_int B :: 32 word) = 2139095040 \<longleftrightarrow> B = 2139095040"
    by simp
  then show ?thesis
    by (simp add: is_inf32_def magnitude32 [OF assms])
qed

lemma is_inf32_nan:
  fixes y z :: "32 word"
  shows "\<not> is_inf32 (push_bit 31 y OR 0x7FC00000 OR z)"
proof
  assume "is_inf32 (push_bit 31 y OR 0x7FC00000 OR z)"
  then have "bit ((push_bit 31 y OR 0x7FC00000 OR z) AND 0x7FFFFFFF) 22 \<longleftrightarrow>
      bit (0x7F800000 :: 32 word) 22"
    by (simp add: is_inf32_def)
  then show False
    by (simp add: bit_simps)
qed

lemma f_overflows_iff:
  "f_overflows d \<longleftrightarrow>
     5183643170835005440 \<le> uint (d AND 0x7FFFFFFFFFFFFFFF) \<and>
     uint (d AND 0x7FFFFFFFFFFFFFFF) < 9218868437227405312"
proof -
  define E where "E = uint (drop_bit 52 d AND 0x7FF)"
  define F where "F = uint (d AND 0xFFFFFFFFFFFFF)"
  define y where "y = (ucast (drop_bit 63 d) :: 32 word)"
  note fld = double_fields [of d, folded E_def F_def]
  have m: "uint (d AND 0x7FFFFFFFFFFFFFFF) = E * 2 ^ 52 + F"
    by (rule fld)
  have inf64: "is_inf64 d \<longleftrightarrow> E * 2 ^ 52 + F = 9218868437227405312"
    unfolding is_inf64_def by (simp add: word_uint_eq_iff m)
  show ?thesis
  proof (cases "E = 2047")
    case True
    then have "\<not> f_overflows d"
      using fld(3) inf64
      by (auto simp: f_overflows_def double_to_single_def Let_def is_inf32_nan
          simp flip: E_def F_def)
    with True fld(3) show ?thesis
      by (simp add: m)
  next
    case False
    with fld have E: "0 \<le> E" "E \<le> 2046" and F: "0 \<le> F" "F < 2 ^ 52"
      by simp_all
    define M where "M = (if E = 0 then F else 2 ^ 52 + F)"
    define B where "B = (if 897 \<le> E then (E - 897) * 2 ^ 23 + rne M 29
                     else rne M (nat (926 - max E 1)))"
    have M0: "0 \<le> M"
      using F by (simp add: M_def)
    have B0: "0 \<le> B"
      using E M0 by (simp add: B_def rne_nonneg)
    have ds: "double_to_single d = push_bit 31 y OR word_of_int (min B 2139095040)"
      using False
      by (simp add: double_to_single_def Let_def y_def B_def M_def flip: E_def F_def)
    have "is_inf32 (double_to_single d) \<longleftrightarrow> min B 2139095040 = 2139095040"
      unfolding ds using B0 by (intro is_inf32_magnitude) simp_all
    also have "\<dots> \<longleftrightarrow> 2139095040 \<le> B"
      by auto
    also have "\<dots> \<longleftrightarrow> 5183643170835005440 \<le> E * 2 ^ 52 + F"
    proof (cases "897 \<le> E")
      case True
      then have "B = (E - 897) * 2 ^ 23 + rne (2 ^ 52 + F) 29"
        by (simp add: B_def M_def)
      with finite_overflow_high [OF True E(2) F] show ?thesis
        by simp
    next
      case low: False
      then have "B < 2139095040"
        using finite_overflow_low [of E F] E F by (simp add: B_def M_def)
      moreover have "E * 2 ^ 52 + F < 5183643170835005440"
        using low F by simp
      ultimately show ?thesis
        by simp
    qed
    finally have "is_inf32 (double_to_single d) \<longleftrightarrow> 5183643170835005440 \<le> E * 2 ^ 52 + F" .
    moreover have "\<not> is_inf64 d" "E * 2 ^ 52 + F < 9218868437227405312"
      using E F by (simp_all add: inf64)
    ultimately show ?thesis
      by (simp add: f_overflows_def m)
  qed
qed

lemma f_overflows_beyond: "f_overflows d \<longleftrightarrow> beyond_single d"
  by (simp add: f_overflows_iff beyond_single_def magnitude_def)

section \<open>Claims about the codec\<close>

lemma f_overflows_sample: "\<not> f_overflows 0x3FB999999999999A" "\<not> f_overflows 0x3FF0000000000000"
  by (simp_all add: f_overflows_def double_to_single_def rne_def is_inf32_def is_inf64_def)

lemma wf_sample: "well_formed sample_row"
  by (simp add: well_formed_def sample_row_def in_i32_def in_i64_def f_overflows_zero
      f_overflows_sample)





text \<open>
  C10. On every byte string of length 40 the decoder succeeds and returns nine fields,
  the first in the signed 32-bit range and the second in the signed 64-bit range; the
  decoder fails only on inputs whose length is not 40.
\<close>

theorem unpack_sensor_data_total:
  "(length bs = 40 \<longrightarrow>
      (\<exists>sid t fx fy fz fqw fqx fqy fqz.
         unpack_sensor_data bs = Inr (sid, t, fx, fy, fz, fqw, fqx, fqy, fqz) \<and>
         in_i32 sid \<and> in_i64 t)) \<and>
   (\<forall>e. unpack_sensor_data bs = Inl e \<longrightarrow> length bs \<noteq> 40)"
  by (simp add: unpack_sensor_data_def slice_def to_signed_range32 to_signed_range64)

theorem unpack_sensor_data_total_witness:
  "length (replicate 40 (0::byte)) = 40 \<and>
   (\<exists>t. unpack_sensor_data (replicate 40 0) = Inr t) \<and>
   unpack_sensor_data (replicate 10 0) = Inl StructError \<and>
   length (replicate 10 (0::byte)) \<noteq> 40"
  using unpack_sensor_data_total [of "replicate 40 0"] unpack_sensor_data_total [of "replicate 10 0"]
  by (simp add: unpack_sensor_data_def)

text \<open>
  C9, as the code has it. The encoder succeeds exactly when the sensor id fits a signed
  32-bit field, the timestamp fits a signed 64-bit field, and none of the seven float
  fields is a finite double of magnitude \<open>2 ^ 128 - 2 ^ 103\<close> or more (one that rounds to
  a single-precision infinity). Infinities and NaNs are not in that range.
\<close>

theorem pack_sensor_data_succeeds_iff:
  "(\<exists>frame. pack_sensor_data r = Inr frame) \<longleftrightarrow>
     in_i32 (sensor_id r) \<and> in_i64 (time r) \<and>
     \<not> (beyond_single (row_x r) \<or> beyond_single (row_y r) \<or> beyond_single (row_z r) \<or>
        beyond_single (row_qw r) \<or> beyond_single (row_qx r) \<or> beyond_single (row_qy r) \<or>
        beyond_single (row_qz r))"
proof (cases "well_formed r")
  case True
  then show ?thesis
    using pack_sensor_data_wf [of r] by (simp add: well_formed_def f_overflows_beyond)
next
  case False
  then show ?thesis
    using pack_sensor_data_not_wf [of r] by (auto simp: well_formed_def f_overflows_beyond)
qed

theorem pack_sensor_data_succeeds_iff_witness:
  "\<exists>frame. pack_sensor_data sample_row = Inr frame"
  using pack_sensor_data_succeeds_iff [of sample_row] wf_sample
  by (simp add: well_formed_def f_overflows_beyond)

text \<open>
  C9, as the claim states it, fails: with both integer fields in range, the float
  \<open>x = 2 ^ 128\<close> makes the encoder raise \<^verbatim>\<open>OverflowError\<close>.
\<close>

theorem pack_float_overflow_counterexample:
  "in_i32 (sensor_id huge_x_row) \<and> in_i64 (time huge_x_row) \<and>
   pack_sensor_data huge_x_row = Inl OverflowError"
proof -
  have "f_overflows 0x47F0000000000000"
    by (simp add: f_overflows_def double_to_single_def rne_def is_inf32_def is_inf64_def)
  then show ?thesis
    by (simp add: huge_x_row_def sample_row_def pack_sensor_data_def pack_i_def pack_q_def
        pack_f_def in_i32_def in_i64_def)
qed

section \<open>Claims about the publisher\<close>

text \<open>
  C2. The run of the publisher on three samples with the timestamps 100, 220 and 500 ms:
  the first two frames are sent back to back, the suspension of 0.12 s follows the
  second frame and the suspension of 0.28 s follows the third.
\<close>

theorem replay_timing_100_220_500:
  "replay True (Inr timing_rows) False None =
   Some [Bind, Sleep 1,
         Send (sensor_topic 1) (frame_of (zero_row 1 100)),
         Send (sensor_topic 2) (frame_of (zero_row 2 220)),
         Sleep 0.12,
         Send (sensor_topic 3) (frame_of (zero_row 3 500)),
         Sleep 0.28,
         Send done_topic [], Sleep 1, Close, Term]"
  by code_simp










section \<open>Claims about the subscriber\<close>

text \<open>
  C1, as the code has it. While the receive loop is running, a delivered two-part
  message whose topic is not the sentinel and whose payload is not 40 bytes long ends
  \<^verbatim>\<open>consume\<close>: \<^verbatim>\<open>struct.error\<close> is not caught, the socket is closed, the exception leaves
  the function, and no later message is received.
\<close>

theorem consume_decode_failure:
  assumes "recv_loop (filter (zmq_delivers (subscriptions N)) pre) = (out, Blocked)"
    and "zmq_matches (subscriptions N) t" and "utf8_valid t" and "t \<noteq> done_topic"
    and "length p \<noteq> 40"
  shows "consume N (pre @ Message [t, p] # rest) =
    (Connect # map Subscribe (subscriptions N) @ out @ [Close, Term], Propagated StructError)"
proof -
  have "recv_loop (Message [t, p] # filter (zmq_delivers (subscriptions N)) rest) =
      ([], Raised StructError)"
    using assms(3-5) by (simp add: unpack_sensor_data_def)
  with recv_loop_append [OF assms(1)]
  have "recv_loop (filter (zmq_delivers (subscriptions N)) (pre @ Message [t, p] # rest)) =
      (out, Raised StructError)"
    using assms(2) by simp
  then show ?thesis
    by (simp add: consume_def)
qed

theorem consume_decode_failure_witness:
  "consume 1 ([] @ Message [sensor_topic 1, replicate 10 0] #
              [Message [sensor_topic 1, frame_of (zero_row 1 5)]]) =
     (Connect # map Subscribe (subscriptions 1) @ [] @ [Close, Term], Propagated StructError)"
proof -
  have blocked: "recv_loop (filter (zmq_delivers (subscriptions 1)) []) = ([], Blocked)"
    by simp
  have matches: "zmq_matches (subscriptions 1) (sensor_topic 1)"
    by (simp add: zmq_matches_subscriptions)
  have valid: "utf8_valid (sensor_topic 1)"
    by code_simp
  have other: "sensor_topic 1 \<noteq> done_topic"
    by code_simp
  have short: "length (replicate 10 (0::byte)) \<noteq> 40"
    by simp
  show ?thesis
    by (rule consume_decode_failure [OF blocked matches valid other short])
qed

text \<open>
  C1, as the claim states it, fails: after a 10-byte payload on \<^verbatim>\<open>sensor/em/1\<close> the
  subscriber is gone, and the well-formed frame that follows is never surfaced.
\<close>

theorem consume_decode_failure_counterexample:
  "consume 1 [Message [sensor_topic 1, replicate 10 0],
              Message [sensor_topic 1, frame_of (zero_row 1 5)]] =
     ([Connect, Subscribe (sensor_topic 1), Subscribe done_topic, Close, Term],
      Propagated StructError)"
  by code_simp

text \<open>
  C4, as the code has it. The subscriber subscribes to the per-sensor topics of the ids
  \<open>1..N\<close> and to the sentinel topic, once, before receiving. Every sample it surfaces
  arrived in a message whose topic begins with one of these subscription strings.
\<close>

theorem consume_subscription_filter:
  "subscriptions N = map sensor_topic [1..N] @ [done_topic] \<and>
   (\<exists>rest. fst (consume N incoming) = Connect # map Subscribe (subscriptions N) @ rest \<and>
      (\<forall>s. Subscribe s \<notin> set rest) \<and>
      (\<forall>t d. Surface t d \<in> set rest \<longrightarrow>
         (\<exists>p. Message [t, p] \<in> set incoming) \<and>
         ((\<exists>i\<in>{1..N}. prefix (sensor_topic i) t) \<or> prefix done_topic t)))"
proof -
  define ms where "ms = filter (zmq_delivers (subscriptions N)) incoming"
  obtain out r where rl: "recv_loop ms = (out, r)" by (cases "recv_loop ms")
  have ev: "\<exists>t d p. e = Surface t d \<and> Message [t, p] \<in> set ms" if "e \<in> set out" for e
    using recv_loop_events [of e ms] that rl by simp
  have sub: "Subscribe s \<notin> set out" for s
    using ev by blast
  have sur: "(\<exists>p. Message [t, p] \<in> set incoming) \<and>
      ((\<exists>i\<in>{1..N}. prefix (sensor_topic i) t) \<or> prefix done_topic t)"
    if "Surface t d \<in> set out" for t d
  proof -
    from ev [OF that] obtain p where "Message [t, p] \<in> set ms" by auto
    then have "Message [t, p] \<in> set incoming" and "zmq_matches (subscriptions N) t"
      by (simp_all add: ms_def)
    then show ?thesis
      by (auto simp: zmq_matches_subscriptions)
  qed
  have "\<exists>tail. fst (consume N incoming) = Connect # map Subscribe (subscriptions N) @ out @ tail \<and>
      set tail \<subseteq> {Report_done, Report_interrupted, Close, Term}"
    using rl by (cases r) (auto simp: consume_def ms_def)
  then obtain tail where
    f: "fst (consume N incoming) = Connect # map Subscribe (subscriptions N) @ out @ tail"
    and t: "set tail \<subseteq> {Report_done, Report_interrupted, Close, Term}"
    by blast
  have "\<forall>s. Subscribe s \<notin> set (out @ tail)"
    using sub t by auto
  moreover have "\<forall>t' d. Surface t' d \<in> set (out @ tail) \<longrightarrow>
         (\<exists>p. Message [t', p] \<in> set incoming) \<and>
         ((\<exists>i\<in>{1..N}. prefix (sensor_topic i) t') \<or> prefix done_topic t')"
    using sur t by auto
  ultimately have "\<exists>rest. fst (consume N incoming) = Connect # map Subscribe (subscriptions N) @ rest \<and>
      (\<forall>s. Subscribe s \<notin> set rest) \<and>
      (\<forall>t d. Surface t d \<in> set rest \<longrightarrow>
         (\<exists>p. Message [t, p] \<in> set incoming) \<and>
         ((\<exists>i\<in>{1..N}. prefix (sensor_topic i) t) \<or> prefix done_topic t))"
    using f by blast
  then show ?thesis
    by (simp only: subscriptions_def simp_thms)
qed

theorem consume_subscription_filter_witness:
  "Surface (sensor_topic 2) (2, 5, 0, 0, 0, 0, 0, 0, 0) \<in>
     set (fst (consume 3 [Message [sensor_topic 5, frame_of (zero_row 5 5)],
                          Message [sensor_topic 2, frame_of (zero_row 2 5)]])) \<and>
   zmq_matches (subscriptions 3) (sensor_topic 2)"
proof -
  let ?inc = "[Message [sensor_topic 5, frame_of (zero_row 5 5)],
               Message [sensor_topic 2, frame_of (zero_row 2 5)]]"
  have run: "fst (consume 3 ?inc) =
    Connect # map Subscribe (subscriptions 3) @ [Surface (sensor_topic 2) (2, 5, 0, 0, 0, 0, 0, 0, 0)]"
    by code_simp
  from consume_subscription_filter [of 3 ?inc]
  obtain rest where "fst (consume 3 ?inc) = Connect # map Subscribe (subscriptions 3) @ rest"
    and sur: "\<forall>t d. Surface t d \<in> set rest \<longrightarrow>
         (\<exists>p. Message [t, p] \<in> set ?inc) \<and>
         ((\<exists>i\<in>{1..3}. prefix (sensor_topic i) t) \<or> prefix done_topic t)"
    by blast
  with run have "rest = [Surface (sensor_topic 2) (2, 5, 0, 0, 0, 0, 0, 0, 0)]"
    by simp
  with sur run show ?thesis
    by (simp add: zmq_matches_subscriptions)
qed

text \<open>
  C4, as the claim states it, fails: with \<open>N = 1\<close> the subscription \<^verbatim>\<open>sensor/em/1\<close> is a
  prefix of \<^verbatim>\<open>sensor/em/10\<close>, so a sample of sensor 10 is delivered and surfaced.
\<close>

theorem consume_prefix_counterexample:
  "(10::int) \<notin> {1..1} \<and>
   consume 1 [Message [sensor_topic 10, frame_of (zero_row 10 5)]] =
     ([Connect, Subscribe (sensor_topic 1), Subscribe done_topic,
       Surface (sensor_topic 10) (10, 5, 0, 0, 0, 0, 0, 0, 0)], Never_returns)"
proof -
  have "consume 1 [Message [sensor_topic 10, frame_of (zero_row 10 5)]] =
     ([Connect, Subscribe (sensor_topic 1), Subscribe done_topic,
       Surface (sensor_topic 10) (10, 5, 0, 0, 0, 0, 0, 0, 0)], Never_returns)"
    by code_simp
  then show ?thesis by simp
qed

end
